theory Spec2Isabelle
  imports Main "HOL-Library.Sublist"
begin

section \<open>The llama downloader: catalogue, download engine and checksum verifier\<close>

text \<open>
  A shallow embedding of \<^verbatim>\<open>src/downloader.py\<close>. Byte strings are \<open>string\<close> (a list of
  bytes), and a Python string is modelled by its UTF-8 bytes. Where the program counts
  characters (an index from \<^verbatim>\<open>rfind\<close>, a slice) the model counts characters too; where
  it looks for ASCII characters only (a line feed, a backslash, \<^verbatim>\<open>.chk\<close>) it works on the
  bytes, which is the same. Exceptions are values of type \<open>exn\<close>; a function that may raise
  returns \<open>exn + 'a\<close>, with \<open>Inl\<close> the raised exception.
\<close>

subsection \<open>Exceptions\<close>

datatype exn =
    ValueError string
  | FormatValueError
  | FormatIndexError
  | FormatUnmodelled
  | ClientConnectionError
  | ClientPayloadError
  | FileNotFoundError string
  | IsADirectoryError string
  | NotADirectoryError string
  | UnicodeDecodeError
  | FileExistsError string
  | OSError string
  | UnboundLocalError string
  | KeyError nat

subsection \<open>Static tables\<close>

text \<open>
  \<^verbatim>\<open>FILES\<close> and \<^verbatim>\<open>user_entry\<close> are Python dictionaries; their iteration order is
  the order of declaration, so they are association lists here.
\<close>

definition FILES :: "(string \<times> string list) list" where
  "FILES =
    [(''.'',
        [''LICENSE'', ''USE_POLICY.md'', ''tokenizer.model'', ''tokenizer_checklist.chk'']),
     (''llama-2-7b'',
        [''consolidated.00.pth'', ''params.json'', ''checklist.chk'']),
     (''llama-2-7b-chat'',
        [''consolidated.00.pth'', ''params.json'', ''checklist.chk'']),
     (''llama-2-13b'',
        [''consolidated.00.pth'', ''consolidated.01.pth'', ''params.json'',
         ''checklist.chk'']),
     (''llama-2-13b-chat'',
        [''consolidated.00.pth'', ''consolidated.01.pth'', ''params.json'',
         ''checklist.chk'']),
     (''llama-2-70b'',
        [''consolidated.00.pth'', ''consolidated.01.pth'', ''consolidated.02.pth'',
         ''consolidated.03.pth'', ''consolidated.04.pth'', ''consolidated.05.pth'',
         ''consolidated.06.pth'', ''consolidated.07.pth'', ''params.json'',
         ''checklist.chk'']),
     (''llama-2-70b-chat'',
        [''consolidated.00.pth'', ''consolidated.01.pth'', ''consolidated.02.pth'',
         ''consolidated.03.pth'', ''consolidated.04.pth'', ''consolidated.05.pth'',
         ''consolidated.06.pth'', ''consolidated.07.pth'', ''params.json'',
         ''checklist.chk''])]"


subsection \<open>Library functions on strings\<close>

text \<open>Decimal rendering of a number, as an f-string does for an \<^verbatim>\<open>int\<close>.\<close>

fun str_nat :: "nat \<Rightarrow> string" where
  "str_nat n =
     (if n < 10 then [char_of (48 + n)]
      else str_nat (n div 10) @ [char_of (48 + n mod 10)])"

declare str_nat.simps [simp del]

text \<open>An optional number in an f-string: \<^verbatim>\<open>None\<close> prints as the word.\<close>

definition str_opt_nat :: "nat option \<Rightarrow> string" where
  "str_opt_nat v = (case v of None \<Rightarrow> ''None'' | Some n \<Rightarrow> str_nat n)"

text \<open>
  \<^verbatim>\<open>s.replace(c, r)\<close> for a one-character pattern \<open>c\<close>: every occurrence of the character
  is replaced.
\<close>

definition replace_char :: "char \<Rightarrow> string \<Rightarrow> string \<Rightarrow> string" where
  "replace_char c r s = concat (map (\<lambda>x. if x = c then r else [x]) s)"

text \<open>
  \<^verbatim>\<open>s.split(sep)\<close> for a one-character separator: the pieces between the separators,
  one more than there are separators (so the empty string gives one empty piece).
\<close>

fun split_char :: "char \<Rightarrow> string \<Rightarrow> string list" where
  "split_char c [] = [[]]"
| "split_char c (x # s) =
     (if x = c then [] # split_char c s
      else (case split_char c s of
              [] \<Rightarrow> [[x]]
            | p # ps \<Rightarrow> (x # p) # ps))"

text \<open>
  \<^verbatim>\<open>template.format(a)\<close> with one positional argument. The model covers literal text,
  the escapes \<^verbatim>\<open>{{\<close> and \<^verbatim>\<open>}}\<close>, and the replacement fields \<^verbatim>\<open>{0}\<close> and \<^verbatim>\<open>{}\<close> with
  Python's rule that automatic and manual numbering do not mix. A lone brace raises; any
  other replacement field (a name, another index, a conversion or a format specification)
  is outside the model and yields \<open>FormatUnmodelled\<close>.
\<close>

datatype numbering = Unset | Auto | Manual

definition emit :: "string \<Rightarrow> exn + string \<Rightarrow> exn + string" where
  "emit p r = (case r of Inl e \<Rightarrow> Inl e | Inr s \<Rightarrow> Inr (p @ s))"

fun format_from :: "string \<Rightarrow> string \<Rightarrow> numbering \<Rightarrow> exn + string" where
  "format_from [] a m = Inr []"
| "format_from (c # t) a m =
     (if c = CHR ''{'' then
        (case t of
           [] \<Rightarrow> Inl FormatValueError
         | d # u \<Rightarrow>
             if d = CHR ''{'' then emit [CHR ''{''] (format_from u a m)
             else if d = CHR ''}'' then
               (case m of
                  Manual \<Rightarrow> Inl FormatValueError
                | Auto \<Rightarrow> Inl FormatIndexError
                | Unset \<Rightarrow> emit a (format_from u a Auto))
             else if d = CHR ''0'' then
               (case u of
                  [] \<Rightarrow> Inl FormatValueError
                | e # v \<Rightarrow>
                    if e = CHR ''}'' then
                      (case m of
                         Auto \<Rightarrow> Inl FormatValueError
                       | _ \<Rightarrow> emit a (format_from v a Manual))
                    else Inl FormatUnmodelled)
             else Inl FormatUnmodelled)
      else if c = CHR ''}'' then
        (case t of
           [] \<Rightarrow> Inl FormatValueError
         | d # u \<Rightarrow>
             if d = CHR ''}'' then emit [CHR ''}''] (format_from u a m)
             else Inl FormatValueError)
      else emit [c] (format_from t a m))"

definition str_format :: "string \<Rightarrow> string \<Rightarrow> exn + string" where
  "str_format template a = format_from template a Unset"

subsection \<open>Searching and slicing sequences\<close>

text \<open>
  \<^verbatim>\<open>sub in s\<close>, \<^verbatim>\<open>s.rfind(sub)\<close> and the slices \<^verbatim>\<open>s[:i]\<close> and \<^verbatim>\<open>s[i:]\<close>, on a
  sequence of any elements. \<^verbatim>\<open>rfind\<close> gives the highest index at which \<open>sub\<close> starts in
  \<open>s\<close>, or \<open>-1\<close> when it does not occur; the scan goes left to right and remembers the
  last match. A negative slice index counts from the end.
\<close>

fun str_contains :: "'a list \<Rightarrow> 'a list \<Rightarrow> bool" where
  "str_contains sub [] = (sub = [])"
| "str_contains sub (c # s) = (prefix sub (c # s) \<or> str_contains sub s)"

fun rfind_from :: "'a list \<Rightarrow> 'a list \<Rightarrow> nat \<Rightarrow> int \<Rightarrow> int" where
  "rfind_from sub [] i found = (if sub = [] then int i else found)"
| "rfind_from sub (c # s) i found =
     rfind_from sub s (Suc i) (if prefix sub (c # s) then int i else found)"

definition rfind :: "'a list \<Rightarrow> 'a list \<Rightarrow> int" where
  "rfind s sub = rfind_from sub s 0 (- 1)"

definition slice_to :: "'a list \<Rightarrow> int \<Rightarrow> 'a list" where
  "slice_to s i = (if i < 0 then take (nat (int (length s) + i)) s else take (nat i) s)"

definition slice_from :: "'a list \<Rightarrow> int \<Rightarrow> 'a list" where
  "slice_from s i = (if i < 0 then drop (nat (int (length s) + i)) s else drop (nat i) s)"

subsection \<open>Characters\<close>

text \<open>
  The indices of a Python string count characters, and the model has the UTF-8 bytes of
  the string. A byte of the form \<^verbatim>\<open>10xxxxxx\<close> continues a character; \<open>chars\<close> cuts the
  bytes of a string into its characters, each with the bytes that continue it. Searching
  and slicing a string is searching and slicing the sequence of its characters.
\<close>

definition continuation :: "char \<Rightarrow> bool" where
  "continuation c \<longleftrightarrow> digit7 c \<and> \<not> digit6 c"

function chars :: "string \<Rightarrow> string list" where
  "chars [] = []"
| "chars (c # s) = (c # takeWhile continuation s) # chars (dropWhile continuation s)"
  by pat_completeness auto
termination
  by (relation "measure length") (auto simp: length_dropWhile_le less_Suc_eq_le)

definition str_rfind :: "string \<Rightarrow> string \<Rightarrow> int" where
  "str_rfind s sub = rfind (chars s) (chars sub)"

definition str_slice_to :: "string \<Rightarrow> int \<Rightarrow> string" where
  "str_slice_to s i = concat (slice_to (chars s) i)"

definition str_slice_from :: "string \<Rightarrow> int \<Rightarrow> string" where
  "str_slice_from s i = concat (slice_from (chars s) i)"

text \<open>
  The byte strings that the strict UTF-8 decoder accepts: one byte below \<^verbatim>\<open>80\<close>, or a
  lead byte \<^verbatim>\<open>C2\<close> to \<^verbatim>\<open>F4\<close> with one, two or three continuation bytes, without
  overlong forms, surrogates or code points above \<^verbatim>\<open>10FFFF\<close>.
\<close>

definition second_byte_ok :: "nat \<Rightarrow> char \<Rightarrow> bool" where
  "second_byte_ok lead c =
     (let b = (of_char c :: nat) in
      if lead = 0xE0 then 0xA0 \<le> b \<and> b \<le> 0xBF
      else if lead = 0xED then 0x80 \<le> b \<and> b \<le> 0x9F
      else if lead = 0xF0 then 0x90 \<le> b \<and> b \<le> 0xBF
      else if lead = 0xF4 then 0x80 \<le> b \<and> b \<le> 0x8F
      else continuation c)"

fun valid_utf8 :: "string \<Rightarrow> bool" where
  "valid_utf8 [] = True"
| "valid_utf8 (c # s) =
     (if \<not> digit7 c then valid_utf8 s
      else if 0xC2 \<le> (of_char c :: nat) \<and> (of_char c :: nat) \<le> 0xDF then
        (case s of
           c1 # t \<Rightarrow> continuation c1 \<and> valid_utf8 t
         | _ \<Rightarrow> False)
      else if 0xE0 \<le> (of_char c :: nat) \<and> (of_char c :: nat) \<le> 0xEF then
        (case s of
           c1 # c2 # t \<Rightarrow> second_byte_ok (of_char c) c1 \<and> continuation c2 \<and> valid_utf8 t
         | _ \<Rightarrow> False)
      else if 0xF0 \<le> (of_char c :: nat) \<and> (of_char c :: nat) \<le> 0xF4 then
        (case s of
           c1 # c2 # c3 # t \<Rightarrow>
             second_byte_ok (of_char c) c1 \<and> continuation c2 \<and> continuation c3 \<and>
             valid_utf8 t
         | _ \<Rightarrow> False)
      else False)"

subsection \<open>File information and the progress display\<close>

text \<open>
  \<^verbatim>\<open>FileInfo\<close>: the field \<^verbatim>\<open>sort_index\<close> is declared with \<^verbatim>\<open>init=False\<close> and never
  assigned, so it carries nothing. A \<^verbatim>\<open>TaskID\<close> is the position of the task in the
  progress display, which numbers its tasks from 0.
\<close>

record FileInfo =
  file_url :: string
  file_name :: string
  file_path :: string
  progress_task :: nat

record ptask =
  description :: string
  total :: "nat option"
  completed :: nat
  started :: bool

type_synonym progress = "ptask list"

text \<open>\<^verbatim>\<open>progress.add_task(description, total=..., start=...)\<close> returns the new task's id.\<close>

definition add_task :: "string \<Rightarrow> nat option \<Rightarrow> bool \<Rightarrow> progress \<Rightarrow> nat \<times> progress" where
  "add_task d t st p =
     (length p, p @ [\<lparr>description = d, total = t, completed = 0, started = st\<rparr>])"

subsection \<open>Building the task list\<close>

definition queued_description :: "string \<Rightarrow> string" where
  "queued_description file = ''[blue]Queued [b]'' @ file @ ''[/b]''"

definition destination :: "string \<Rightarrow> string \<Rightarrow> string \<Rightarrow> string" where
  "destination base_path model file =
     (if model = ''.'' then base_path @ ''/'' @ file
      else base_path @ ''/'' @ model @ ''/'' @ file)"

text \<open>The inner loop of \<^verbatim>\<open>download_files\<close>: one \<^verbatim>\<open>FileInfo\<close> per file of a group.\<close>

fun queue_files ::
  "string \<Rightarrow> string \<Rightarrow> string \<Rightarrow> string list \<Rightarrow> FileInfo list \<times> progress
     \<Rightarrow> exn + (FileInfo list \<times> progress)" where
  "queue_files url base_path model [] acc = Inr acc"
| "queue_files url base_path model (file # files) (file_list, p) =
     (case str_format url (model @ ''/'' @ file) of
        Inl e \<Rightarrow> Inl e
      | Inr u \<Rightarrow>
          (case add_task (queued_description file) (Some 100) False p of
             (tid, p') \<Rightarrow>
               queue_files url base_path model files
                 (file_list @
                    [\<lparr>file_url = u, file_name = file,
                      file_path = destination base_path model file,
                      progress_task = tid\<rparr>], p')))"

text \<open>
  The outer loop: \<^verbatim>\<open>for model in FILES.keys(): if model in models: ...\<close>. The catalogue
  drives the iteration; \<open>models\<close> is only tested for membership.
\<close>

fun queue_models ::
  "string \<Rightarrow> string \<Rightarrow> string list \<Rightarrow> (string \<times> string list) list
     \<Rightarrow> FileInfo list \<times> progress \<Rightarrow> exn + (FileInfo list \<times> progress)" where
  "queue_models url base_path models [] acc = Inr acc"
| "queue_models url base_path models ((model, files) # rest) acc =
     (if model \<in> set models then
        (case queue_files url base_path model files acc of
           Inl e \<Rightarrow> Inl e
         | Inr acc' \<Rightarrow> queue_models url base_path models rest acc')
      else queue_models url base_path models rest acc)"

definition build_file_list ::
  "string list \<Rightarrow> string \<Rightarrow> string \<Rightarrow> exn + (FileInfo list \<times> progress)" where
  "build_file_list models url base_path = queue_models url base_path models FILES ([], [])"

subsection \<open>Disk, network and program state\<close>

text \<open>
  The disk says, for the text of a path, what that path names: nothing, a file or a
  directory. \<open>Faulty c\<close> is a file that opens, delivers the bytes \<open>c\<close> and then fails with
  an I/O error on the next read. Permissions and full disks are not modelled.
\<close>

datatype node = File string | Faulty string | Dir

type_synonym disk = "string \<Rightarrow> node option"

text \<open>
  What the server does for a URL: no connection at all, or a response with status, reason,
  \<^verbatim>\<open>Content-Length\<close> header if present, the body as the chunks that
  \<^verbatim>\<open>iter_chunked(1024)\<close> delivers, and whether the body arrives whole (otherwise the stream
  raises after the last chunk delivered).
\<close>

datatype response =
  Response (status: nat) (reason: string) (content_length: "nat option")
    (chunks: "string list") (complete: bool)

datatype reply = NoConnection | Reply response

type_synonym network = "string \<Rightarrow> reply"

datatype level = DEBUG | INFO | ERROR

text \<open>A log record; \<open>LogExc e\<close> is \<^verbatim>\<open>logging.error(f"{e}", exc_info=True)\<close>.\<close>

datatype log_entry = Log level string | LogExc exn

record state =
  disk :: disk
  log :: "log_entry list"
  bars :: progress
  printed :: "string list"

subsection \<open>One transfer\<close>

text \<open>
  \<^verbatim>\<open>progress.update\<close> and \<^verbatim>\<open>progress.start_task\<close> look the task up by id and raise
  \<^verbatim>\<open>KeyError\<close> for an id the display does not have.
\<close>

definition update_task :: "nat \<Rightarrow> (ptask \<Rightarrow> ptask) \<Rightarrow> progress \<Rightarrow> exn + progress" where
  "update_task tid f p =
     (if tid < length p then Inr (p[tid := f (p ! tid)])
      else Inl (KeyError tid))"

text \<open>
  \<^verbatim>\<open>progress.update(task, total=v)\<close> leaves the total alone when \<open>v\<close> is \<^verbatim>\<open>None\<close>.
\<close>

definition set_total :: "nat option \<Rightarrow> ptask \<Rightarrow> ptask" where
  "set_total v t = (case v of None \<Rightarrow> t | Some n \<Rightarrow> t\<lparr>total := Some n\<rparr>)"

definition downloading_description :: "string \<Rightarrow> string" where
  "downloading_description f_name = ''[yellow]Downloading [b]'' @ f_name @ ''[/b]''"

definition finished_description :: "string \<Rightarrow> nat option \<Rightarrow> string" where
  "finished_description f_name f_size =
     ''[green][b]Finished '' @ f_name @ ''[/b] | '' @ str_opt_nat f_size"

definition unable_description :: "string \<Rightarrow> nat \<Rightarrow> string" where
  "unable_description f_name st =
     ''[red]Unable to download [b]'' @ f_name @ ''[/b] - '' @ str_nat st"

definition completed_message :: "nat \<Rightarrow> string \<Rightarrow> nat option \<Rightarrow> string" where
  "completed_message st f_name f_size =
     str_nat st @ '' | '' @ f_name @ '' | '' @ str_opt_nat f_size @ '' bytes completed.''"

definition http_error_message :: "nat \<Rightarrow> string \<Rightarrow> string \<Rightarrow> string \<Rightarrow> string" where
  "http_error_message st f_name rsn url =
     str_nat st @ '' | '' @ f_name @ [CHR 0x0A] @ rsn @ [CHR 0x0A] @ url"

text \<open>
  A new entry can be made at a path only in a directory that is there: the text before the
  last slash must name a directory. A path without a slash is in the working directory, and
  one whose only slash is the first is in the root; both are there.
\<close>

definition parent_error :: "disk \<Rightarrow> string \<Rightarrow> exn option" where
  "parent_error d path =
     (let i = rfind path ''/'' in
      if i \<le> 0 then None
      else (case d (take (nat i) path) of
              Some Dir \<Rightarrow> None
            | None \<Rightarrow> Some (FileNotFoundError path)
            | Some _ \<Rightarrow> Some (NotADirectoryError path)))"

text \<open>
  \<^verbatim>\<open>aiofiles.open(path, "wb")\<close>: the file is created, or cut to length zero when it is
  there already. It raises for the empty path, for a path that ends in a slash or names a
  directory, and when the directory of the path is not there.
\<close>

definition open_wb :: "disk \<Rightarrow> string \<Rightarrow> exn + disk" where
  "open_wb d path =
     (if path = [] then Inl (FileNotFoundError path)
      else if last path = CHR ''/'' then Inl (IsADirectoryError path)
      else (case parent_error d path of
              Some e \<Rightarrow> Inl e
            | None \<Rightarrow>
                (case d path of
                   Some Dir \<Rightarrow> Inl (IsADirectoryError path)
                 | _ \<Rightarrow> Inr (d(path \<mapsto> File [])))))"

text \<open>The paths at which \<open>open_wb\<close> does not raise.\<close>

definition writable :: "disk \<Rightarrow> string \<Rightarrow> bool" where
  "writable d path \<longleftrightarrow>
     path \<noteq> [] \<and> last path \<noteq> CHR ''/'' \<and> parent_error d path = None \<and>
     d path \<noteq> Some Dir"

definition append_file :: "disk \<Rightarrow> string \<Rightarrow> string \<Rightarrow> disk" where
  "append_file d path data =
     (case d path of
        Some (File c) \<Rightarrow> d(path \<mapsto> File (c @ data))
      | _ \<Rightarrow> d)"

text \<open>
  The loop \<^verbatim>\<open>async for data in response.content.iter_chunked(1024)\<close>: each chunk is
  written, then the task advances by its length.
\<close>

fun write_chunks ::
  "string \<Rightarrow> string \<Rightarrow> nat \<Rightarrow> string list \<Rightarrow> disk \<times> progress
     \<Rightarrow> exn + (disk \<times> progress)" where
  "write_chunks path f_name tid [] acc = Inr acc"
| "write_chunks path f_name tid (data # rest) (d, p) =
     (case update_task tid
             (\<lambda>t. t\<lparr>completed := completed t + length data,
                    description := downloading_description f_name\<rparr>) p of
        Inl e \<Rightarrow> Inl e
      | Inr p' \<Rightarrow> write_chunks path f_name tid rest (append_file d path data, p'))"

text \<open>
  \<^verbatim>\<open>_file_downloader\<close>. The request and the destination file are entered by one
  \<^verbatim>\<open>async with\<close>, the request first: the file is opened for writing before the status is
  looked at. The function has no \<^verbatim>\<open>try\<close>: whatever is raised leaves it.
\<close>

definition file_downloader :: "network \<Rightarrow> FileInfo \<Rightarrow> state \<Rightarrow> exn + state" where
  "file_downloader net file_info s =
     (let f_name = file_name file_info; tid = progress_task file_info in
      case net (file_url file_info) of
        NoConnection \<Rightarrow> Inl ClientConnectionError
      | Reply response \<Rightarrow>
          (case open_wb (disk s) (file_path file_info) of
             Inl e \<Rightarrow> Inl e
           | Inr d0 \<Rightarrow>
               if status response = 200 then
                 (let f_size = content_length response in
                  case update_task tid (set_total f_size) (bars s) of
                    Inl e \<Rightarrow> Inl e
                  | Inr p1 \<Rightarrow>
                  (case update_task tid (\<lambda>t. t\<lparr>started := True\<rparr>) p1 of
                    Inl e \<Rightarrow> Inl e
                  | Inr p2 \<Rightarrow>
                  (case write_chunks (file_path file_info) f_name tid (chunks response)
                          (d0, p2) of
                    Inl e \<Rightarrow> Inl e
                  | Inr (d1, p3) \<Rightarrow>
                      if \<not> complete response then Inl ClientPayloadError
                      else
                        (case update_task tid
                                (\<lambda>t. t\<lparr>description :=
                                          finished_description f_name f_size\<rparr>) p3 of
                           Inl e \<Rightarrow> Inl e
                         | Inr p4 \<Rightarrow>
                             Inr (s\<lparr>disk := d1,
                                    log := log s @
                                      [Log INFO
                                         (completed_message (status response) f_name f_size)],
                                    bars := p4\<rparr>)))))
               else
                 (case update_task tid
                         (\<lambda>t. t\<lparr>description :=
                                   unable_description f_name (status response)\<rparr>)
                         (bars s) of
                    Inl e \<Rightarrow> Inl e
                  | Inr p1 \<Rightarrow>
                      Inr (s\<lparr>disk := d0,
                             log := log s @
                               [Log ERROR
                                  (http_error_message (status response) f_name
                                     (reason response) (file_url file_info))],
                             bars := p1\<rparr>))))"

text \<open>
  \<^verbatim>\<open>_download\<close> awaits \<^verbatim>\<open>asyncio.gather\<close> over all transfers, without
  \<^verbatim>\<open>return_exceptions\<close>, and \<^verbatim>\<open>asyncio.run\<close> drives it: an exception raised by a
  transfer is raised again to the caller, and the transfers still pending are cancelled.
  The model runs the transfers in list order, which is one of the schedules; the order only
  shows in the order of log records and in which of several exceptions is the one raised.
\<close>

fun download :: "network \<Rightarrow> FileInfo list \<Rightarrow> state \<Rightarrow> exn + state" where
  "download net [] s = Inr s"
| "download net (file # file_list) s =
     (case file_downloader net file s of
        Inl e \<Rightarrow> Inl e
      | Inr s' \<Rightarrow> download net file_list s')"

text \<open>\<^verbatim>\<open>download_files\<close>: a fresh progress display, the task list, then the batch.\<close>

definition download_files ::
  "network \<Rightarrow> string list \<Rightarrow> string \<Rightarrow> string \<Rightarrow> state \<Rightarrow> exn + (FileInfo list \<times> state)" where
  "download_files net models url base_path s =
     (case build_file_list models url base_path of
        Inl e \<Rightarrow> Inl e
      | Inr (file_list, p) \<Rightarrow>
          (case download net file_list (s\<lparr>bars := p\<rparr>) of
             Inl e \<Rightarrow> Inl e
           | Inr s' \<Rightarrow> Inr (file_list, s')))"

subsection \<open>Reading text\<close>

text \<open>
  Reading in text mode translates the line ends \<^verbatim>\<open>\r\n\<close> and \<^verbatim>\<open>\r\<close> to \<^verbatim>\<open>\n\<close>.
\<close>

fun universal_newlines :: "string \<Rightarrow> string" where
  "universal_newlines [] = []"
| "universal_newlines (c # s) =
     (if c = CHR 0x0D then
        (case s of
           [] \<Rightarrow> [CHR 0x0A]
         | d # t \<Rightarrow>
             if d = CHR 0x0A then CHR 0x0A # universal_newlines t
             else CHR 0x0A # universal_newlines s)
      else c # universal_newlines s)"

text \<open>
  \<^verbatim>\<open>open(file, "r", encoding="utf-8")\<close> followed by \<^verbatim>\<open>read()\<close>: the bytes must be
  UTF-8.
\<close>

definition read_text :: "disk \<Rightarrow> string \<Rightarrow> exn + string" where
  "read_text d path =
     (case d path of
        None \<Rightarrow> Inl (FileNotFoundError path)
      | Some Dir \<Rightarrow> Inl (IsADirectoryError path)
      | Some (Faulty c) \<Rightarrow> Inl (OSError path)
      | Some (File c) \<Rightarrow>
          if valid_utf8 c then Inr (universal_newlines c) else Inl UnicodeDecodeError)"

text \<open>
  \<^verbatim>\<open>md_list[key] = value\<close> on a dictionary that keeps insertion order: an existing key
  keeps its place and takes the new value, a new key goes to the end.
\<close>

fun dict_set :: "('k \<times> 'v) list \<Rightarrow> 'k \<Rightarrow> 'v \<Rightarrow> ('k \<times> 'v) list" where
  "dict_set [] k v = [(k, v)]"
| "dict_set ((k', v') # kvs) k v =
     (if k' = k then (k, v) # kvs else (k', v') # dict_set kvs k v)"

subsection \<open>Reading the manifests\<close>

text \<open>
  One line of a manifest, in the directory \<open>path\<close>: the pair of the target path and the
  expected digest (the source's \<^verbatim>\<open>file_path\<close> and \<^verbatim>\<open>file_name\<close>).
\<close>

definition parse_line :: "string \<Rightarrow> string \<Rightarrow> string \<times> string" where
  "parse_line path md =
     (let digest = str_slice_to md (str_rfind md ''  '');
          target = path @ ''/'' @ str_slice_from md (str_rfind md ''  '' + 2)
      in (target, digest))"

fun add_lines ::
  "string \<Rightarrow> string list \<Rightarrow> (string \<times> string) list \<Rightarrow> (string \<times> string) list" where
  "add_lines path [] md_list = md_list"
| "add_lines path (md # md_details) md_list =
     (if length md > 0 then
        (case parse_line path md of
           (target, digest) \<Rightarrow>
             add_lines path md_details (dict_set md_list target digest))
      else add_lines path md_details md_list)"

text \<open>The directory of a manifest, as the source computes it: \<^verbatim>\<open>file[:file.rfind("/")]\<close>.\<close>

definition manifest_dir :: "string \<Rightarrow> string" where
  "manifest_dir file = str_slice_to file (str_rfind file ''/'')"

fun read_manifests ::
  "disk \<Rightarrow> string list \<Rightarrow> (string \<times> string) list \<Rightarrow> exn + (string \<times> string) list" where
  "read_manifests d [] md_list = Inr md_list"
| "read_manifests d (f # check_files) md_list =
     (let file = replace_char (CHR 0x5C) ''/'' f in
      case read_text d file of
        Inl e \<Rightarrow> Inl e
      | Inr text \<Rightarrow>
          read_manifests d check_files
            (add_lines (manifest_dir file) (split_char (CHR 0x0A) text) md_list))"

subsection \<open>Hashing the targets\<close>

text \<open>
  The digest is a parameter: \<open>H\<close> maps a byte string to the lowercase hexadecimal MD5 text
  that \<^verbatim>\<open>hexdigest()\<close> returns for it. A hash object is modelled by the bytes it has
  absorbed; \<^verbatim>\<open>update\<close> appends.
\<close>

definition checking_description :: "string \<Rightarrow> string" where
  "checking_description target =
     ''[yellow]Checking [b]'' @ str_slice_from target (str_rfind target ''/'' + 1) @ ''[/b]''"

text \<open>
  The loop \<^verbatim>\<open>while chunk := f.read(4096)\<close>. It returns the hash object, the display and
  the exception that ended it, if one did. For a faulty file the read after the last byte
  raises instead of returning the empty chunk.
\<close>

function read_file ::
  "string \<Rightarrow> bool \<Rightarrow> string \<Rightarrow> nat \<Rightarrow> string \<times> progress
     \<Rightarrow> (string \<times> progress) \<times> exn option" where
  "read_file rest faulty target task (md5_hash, p) =
     (let chunk = take 4096 rest in
      if chunk = [] then
        ((md5_hash, p), if faulty then Some (OSError target) else None)
      else
        (case update_task task (\<lambda>t. t\<lparr>completed := completed t + length chunk\<rparr>) p of
           Inl e \<Rightarrow> ((md5_hash @ chunk, p), Some e)
         | Inr p' \<Rightarrow>
             read_file (drop 4096 rest) faulty target task (md5_hash @ chunk, p')))"
  by pat_completeness auto
termination
  by (relation "measure (\<lambda>(rest, faulty, target, task, acc). length rest)") auto

declare read_file.simps [simp del]

text \<open>
  The body of the \<^verbatim>\<open>try\<close>. The variable \<^verbatim>\<open>md5_hash\<close> is local to \<^verbatim>\<open>verify_md5\<close> and
  lives across the iterations: \<open>None\<close> is the variable not yet bound. When \<^verbatim>\<open>open\<close>
  raises, the variable keeps what it had.
\<close>

definition hash_opened ::
  "string \<Rightarrow> bool \<Rightarrow> string \<Rightarrow> progress \<Rightarrow> (string option \<times> progress) \<times> exn option" where
  "hash_opened c faulty target p =
     (case add_task (checking_description target) (Some (length c)) True p of
        (task, p1) \<Rightarrow>
          (case read_file c faulty target task ([], p1) of
             ((h, p2), ex) \<Rightarrow> ((Some h, p2), ex)))"

definition try_hash ::
  "disk \<Rightarrow> string \<Rightarrow> string option \<times> progress
     \<Rightarrow> (string option \<times> progress) \<times> exn option" where
  "try_hash d target acc =
     (case d target of
        None \<Rightarrow> (acc, Some (FileNotFoundError target))
      | Some Dir \<Rightarrow> (acc, Some (IsADirectoryError target))
      | Some (File c) \<Rightarrow> hash_opened c False target (snd acc)
      | Some (Faulty c) \<Rightarrow> hash_opened c True target (snd acc))"

definition ok_line :: "string \<Rightarrow> string" where
  "ok_line target = target @ '' is OK''"

definition mismatch_line :: "string \<Rightarrow> string \<Rightarrow> string \<Rightarrow> string" where
  "mismatch_line target md_origin actual =
     target @ '' | '' @ md_origin @ '' != '' @ actual"

text \<open>
  One iteration of the loop over \<^verbatim>\<open>md_list.items()\<close>: the \<^verbatim>\<open>try\<close>, the \<^verbatim>\<open>except\<close>
  that logs, and then the comparison, which is outside the \<^verbatim>\<open>try\<close> and reads
  \<^verbatim>\<open>md5_hash\<close> whatever happened.
\<close>

definition verify_one ::
  "(string \<Rightarrow> string) \<Rightarrow> string \<times> string \<Rightarrow> string option \<times> state
     \<Rightarrow> exn + (string option \<times> state)" where
  "verify_one H item acc =
     (case item of (target, md_origin) \<Rightarrow>
      case acc of (md5_hash, s) \<Rightarrow>
      case try_hash (disk s) target (md5_hash, bars s) of
        ((md5_hash', p'), ex) \<Rightarrow>
          (let lg = log s @ (case ex of None \<Rightarrow> [] | Some e \<Rightarrow> [LogExc e]) in
           case md5_hash' of
             None \<Rightarrow> Inl (UnboundLocalError ''md5_hash'')
           | Some h \<Rightarrow>
               if H h = md_origin then
                 Inr (md5_hash',
                      s\<lparr>log := lg @ [Log INFO (ok_line target)],
                        bars := p',
                        printed := printed s @ [ok_line target]\<rparr>)
               else
                 Inr (md5_hash',
                      s\<lparr>log := lg @ [Log ERROR (mismatch_line target md_origin (H h))],
                        bars := p',
                        printed := printed s @ [mismatch_line target md_origin (H h)]\<rparr>)))"

fun verify_targets ::
  "(string \<Rightarrow> string) \<Rightarrow> (string \<times> string) list \<Rightarrow> string option \<times> state
     \<Rightarrow> exn + (string option \<times> state)" where
  "verify_targets H [] acc = Inr acc"
| "verify_targets H (item # md_list) acc =
     (case verify_one H item acc of
        Inl e \<Rightarrow> Inl e
      | Inr acc' \<Rightarrow> verify_targets H md_list acc')"

text \<open>
  \<^verbatim>\<open>verify_md5\<close>. \<open>glob\<close> gives, for a folder, the paths that
  \<^verbatim>\<open>Path(chk_folder).glob('**/*')\<close> yields, as strings.
\<close>

definition retrieve :: "(string \<Rightarrow> string list) \<Rightarrow> string \<Rightarrow> FileInfo list \<Rightarrow> string list" where
  "retrieve glob chk_folder file_info =
     (if length file_info > 0 then map file_path file_info else glob chk_folder)"

definition check_files :: "string list \<Rightarrow> string list" where
  "check_files paths = filter (str_contains ''.chk'') paths"

definition verify_md5 ::
  "(string \<Rightarrow> string) \<Rightarrow> (string \<Rightarrow> string list) \<Rightarrow> string \<Rightarrow> FileInfo list \<Rightarrow> state
     \<Rightarrow> exn + state" where
  "verify_md5 H glob chk_folder file_info s =
     (case read_manifests (disk s) (check_files (retrieve glob chk_folder file_info)) [] of
        Inl e \<Rightarrow> Inl e
      | Inr md_list \<Rightarrow>
          (case verify_targets H md_list (None, s\<lparr>bars := []\<rparr>) of
             Inl e \<Rightarrow> Inl e
           | Inr (md5_hash, s') \<Rightarrow> Inr s'))"

subsection \<open>The prompt\<close>






section \<open>Example inputs\<close>

text \<open>
  A disk with one manifest in the working directory, as a scan of the folder \<^verbatim>\<open>""\<close>
  (the default \<^verbatim>\<open>chk_folder\<close>) names it: the path has no slash.
\<close>

definition cwd_manifest_disk :: disk where
  "cwd_manifest_disk =
     [''checklist.chk'' \<mapsto>
        File (''d41d8cd98f00b204e9800998ecf8427e  sub dir/file with space.bin'' @ [CHR 0x0A])]"

text \<open>
  A digest function for the examples. It agrees with MD5 on the two byte strings that the
  examples hash, the empty one and the single byte \<^verbatim>\<open>a\<close>.
\<close>

definition example_md5 :: "string \<Rightarrow> string" where
  "example_md5 bs =
     (if bs = [] then ''d41d8cd98f00b204e9800998ecf8427e''
      else if bs = ''a'' then ''0cc175b9c0f1b6a831c399e269772661''
      else [])"

definition empty_state :: state where
  "empty_state = \<lparr>disk = Map.empty, log = [], bars = [], printed = []\<rparr>"

text \<open>A state whose disk has the directory \<^verbatim>\<open>/data\<close> and nothing else.\<close>

definition data_state :: state where
  "data_state = \<lparr>disk = [''/data'' \<mapsto> Dir], log = [], bars = [], printed = []\<rparr>"


text \<open>A folder scan that finds nothing.\<close>

definition no_scan :: "string \<Rightarrow> string list" where
  "no_scan folder = []"

text \<open>The manifest of a group, as \<^verbatim>\<open>download_files\<close> returns it.\<close>

definition manifest_info :: FileInfo where
  "manifest_info =
     \<lparr>file_url = ''https://host/llama-2-7b/checklist.chk'', file_name = ''checklist.chk'',
      file_path = ''/data/llama-2-7b/checklist.chk'', progress_task = 0\<rparr>"

text \<open>An empty target whose manifest gives the right digest in capital letters.\<close>

definition uppercase_disk :: disk where
  "uppercase_disk =
     [''/data/llama-2-7b/checklist.chk'' \<mapsto>
        File (''D41D8CD98F00B204E9800998ECF8427E  params.json'' @ [CHR 0x0A]),
      ''/data/llama-2-7b/params.json'' \<mapsto> File []]"

text \<open>A manifest whose only target is not on the disk.\<close>

definition missing_target_disk :: disk where
  "missing_target_disk =
     [''/data/llama-2-7b/checklist.chk'' \<mapsto>
        File (''d41d8cd98f00b204e9800998ecf8427e  params.json'' @ [CHR 0x0A])]"

text \<open>
  A manifest with two targets of the same expected digest; the first is there and has that
  digest, the second is not on the disk.
\<close>

definition stale_digest_disk :: disk where
  "stale_digest_disk =
     [''/data/llama-2-7b/checklist.chk'' \<mapsto>
        File (''0cc175b9c0f1b6a831c399e269772661  params.json'' @ [CHR 0x0A] @
              ''0cc175b9c0f1b6a831c399e269772661  consolidated.00.pth'' @ [CHR 0x0A]),
      ''/data/llama-2-7b/params.json'' \<mapsto> File ''a'']"

text \<open>A file of the root group, as \<^verbatim>\<open>download_files\<close> returns it.\<close>

definition license_info :: FileInfo where
  "license_info =
     \<lparr>file_url = ''https://host/./LICENSE'', file_name = ''LICENSE'',
      file_path = ''/data/LICENSE'', progress_task = 0\<rparr>"

text \<open>
  One queued task, for the file \<^verbatim>\<open>LICENSE\<close>, on a disk that has the directory
  \<^verbatim>\<open>/data\<close> and nothing else, and on a disk that has an earlier copy of the file as well;
  and three servers.
\<close>

definition queued_state :: state where
  "queued_state =
     \<lparr>disk = [''/data'' \<mapsto> Dir], log = [],
      bars = [\<lparr>description = queued_description ''LICENSE'', total = Some 100,
               completed = 0, started = False\<rparr>],
      printed = []\<rparr>"


definition ok_net :: network where
  "ok_net u = Reply (Response 200 ''OK'' (Some 3) [''ab'', ''c''] True)"

definition partial_content_net :: network where
  "partial_content_net u = Reply (Response 206 ''Partial Content'' (Some 3) [''abc''] True)"

definition not_found_net :: network where
  "not_found_net u = Reply (Response 404 ''Not Found'' (Some 9) [''not found''] True)"

text \<open>A piece of a URL template without braces: literal text for \<^verbatim>\<open>format\<close>.\<close>

definition brace_free :: "string \<Rightarrow> bool" where
  "brace_free s \<longleftrightarrow> CHR ''{'' \<notin> set s \<and> CHR ''}'' \<notin> set s"





section \<open>Properties\<close>

subsection \<open>Searching and slicing\<close>

lemma rfind_from_absent:
  "sub \<noteq> [] \<Longrightarrow> \<not> str_contains sub s \<Longrightarrow> rfind_from sub s i found = found"
  by (induction s arbitrary: i found) auto

lemma rfind_absent: "sub \<noteq> [] \<Longrightarrow> \<not> str_contains sub s \<Longrightarrow> rfind s sub = - 1"
  by (simp add: rfind_def rfind_from_absent)

lemma slice_to_minus_one: "slice_to s (- 1) = butlast s"
proof -
  have "nat (int (length s) + - 1) = length s - 1" by arith
  then show ?thesis by (simp add: slice_to_def butlast_conv_take)
qed

lemma slice_from_one: "slice_from s 1 = tl s"
  by (simp add: slice_from_def drop_Suc)

lemma rfind_from_skip:
  "\<exists>found'. rfind_from sub (d @ s) i found = rfind_from sub s (i + length d) found'"
proof (induction d arbitrary: i found)
  case Nil
  show ?case by (intro exI[of _ found]) simp
next
  case (Cons c d)
  obtain found' where
    "rfind_from sub (d @ s) (Suc i) (if prefix sub (c # d @ s) then int i else found) =
       rfind_from sub s (Suc i + length d) found'"
    using Cons.IH by blast
  then show ?case by auto
qed

lemma rfind_from_last:
  assumes "sub \<noteq> []" "prefix sub s" "\<not> str_contains sub (tl s)"
  shows "rfind_from sub s i found = int i"
  using assms by (cases s) (auto simp: rfind_from_absent)

lemma rfind_last_occurrence:
  assumes "sub \<noteq> []" "\<not> str_contains sub (tl (sub @ p))"
  shows "rfind (d @ sub @ p) sub = int (length d)"
proof -
  obtain found' where
    "rfind_from sub (d @ sub @ p) 0 (- 1) = rfind_from sub (sub @ p) (0 + length d) found'"
    using rfind_from_skip by blast
  then show ?thesis using assms by (simp add: rfind_def rfind_from_last)
qed

lemma str_contains_char: "str_contains [c] s \<longleftrightarrow> c \<in> set s"
  by (induction s) auto

text \<open>The characters of a string, put together again, are the string.\<close>

lemma concat_chars: "concat (chars s) = s"
  by (induction s rule: chars.induct) simp_all

lemmas text_eval =
  str_rfind_def str_slice_to_def str_slice_from_def rfind_def slice_to_def slice_from_def
  continuation_def

subsection \<open>Manifest lines\<close>

lemma dict_set_keys: "fst ` set (dict_set kvs k v) = insert k (fst ` set kvs)"
proof (induction kvs)
  case Nil
  show ?case by simp
next
  case (Cons kv kvs)
  obtain k' v' where kv: "kv = (k', v')" by (cases kv)
  show ?case
  proof (cases "k' = k")
    case True
    then show ?thesis using kv by simp
  next
    case False
    then show ?thesis using kv Cons.IH by (simp add: insert_commute)
  qed
qed

lemma add_lines_keeps:
  "k \<in> fst ` set md_list \<Longrightarrow> k \<in> fst ` set (add_lines path md_details md_list)"
proof (induction md_details arbitrary: md_list)
  case Nil
  then show ?case by simp
next
  case (Cons md md_details)
  show ?case
  proof (cases "md = []")
    case True
    then show ?thesis using Cons by simp
  next
    case False
    obtain target digest where p: "parse_line path md = (target, digest)"
      by (cases "parse_line path md")
    have "k \<in> fst ` set (dict_set md_list target digest)"
      using Cons.prems by (simp add: dict_set_keys)
    then have "k \<in> fst ` set (add_lines path md_details (dict_set md_list target digest))"
      by (rule Cons.IH)
    then show ?thesis using False p by simp
  qed
qed

text \<open>
  Claim C8, as the code has it. The claim says that a non-empty line without the two-space
  separator is logged and skipped. The code has no check of the line and no log in the
  loop: such a line makes a checksum record like any other, with a target under the
  directory of the manifest, the record is in the result, and the loop goes on with the
  remaining lines.
\<close>

theorem malformed_line_is_recorded:
  assumes "md \<noteq> []" "\<not> str_contains ''  '' md"
  shows "\<exists>rel digest.
           add_lines path (md # md_details) md_list =
             add_lines path md_details (dict_set md_list (path @ ''/'' @ rel) digest) \<and>
           path @ ''/'' @ rel \<in> fst ` set (add_lines path (md # md_details) md_list)"
proof -
  let ?rel = "str_slice_from md (str_rfind md ''  '' + 2)"
  let ?digest = "str_slice_to md (str_rfind md ''  '')"
  have step: "add_lines path (md # md_details) md_list =
      add_lines path md_details (dict_set md_list (path @ ''/'' @ ?rel) ?digest)"
    using assms(1) by (simp add: parse_line_def Let_def)
  have "path @ ''/'' @ ?rel \<in>
      fst ` set (add_lines path md_details (dict_set md_list (path @ ''/'' @ ?rel) ?digest))"
    by (rule add_lines_keeps) (simp add: dict_set_keys)
  then show ?thesis using step by auto
qed

theorem malformed_line_is_recorded_witness:
  "''garbage'' \<noteq> [] \<and> \<not> str_contains ''  '' ''garbage'' \<and>
   (\<exists>rel digest.
      add_lines ''/data'' [''garbage'', ''''] [] =
        add_lines ''/data'' [''''] (dict_set [] (''/data'' @ ''/'' @ rel) digest) \<and>
      ''/data'' @ ''/'' @ rel \<in> fst ` set (add_lines ''/data'' [''garbage'', ''''] []))"
proof -
  have h1: "''garbage'' \<noteq> []" by simp
  have h2: "\<not> str_contains ''  '' ''garbage''" by simp
  note t = malformed_line_is_recorded [OF h1 h2, of "''/data''" "['''']" "[]"]
  show ?thesis by (intro conjI h1 h2 t)
qed

text \<open>
  Claim C8 as stated fails: the one-line manifest \<^verbatim>\<open>garbage\<close> yields a checksum record.
\<close>

theorem malformed_line_counterexample:
  "''garbage'' \<noteq> [] \<and> \<not> str_contains ''  '' ''garbage'' \<and>
   add_lines ''/data'' [''garbage''] [] = [(''/data/arbage'', ''garbag'')]"
  by (simp add: parse_line_def text_eval)

subsection \<open>The last separator of a line, the directory of a manifest\<close>

text \<open>
  A line is cut at the last two-space separator: when the characters of the line are those
  of \<open>d\<close>, two spaces and those of \<open>p\<close>, and no separator starts after that one, the digest
  is \<open>d\<close> and the relative path is \<open>p\<close>, single spaces and all.
\<close>

lemma parse_line_last_separator:
  assumes "chars md = cd @ ['' '', '' ''] @ cp"
    and "\<not> str_contains ['' '', '' ''] ('' '' # cp)"
  shows "parse_line path md = (path @ ''/'' @ concat cp, concat cd)"
proof -
  have "rfind (cd @ ['' '', '' ''] @ cp) ['' '', '' ''] = int (length cd)"
    using rfind_last_occurrence [of "['' '', '' '']" cp cd] assms(2) by simp
  then have "str_rfind md ''  '' = int (length cd)"
    using assms(1) by (simp add: str_rfind_def continuation_def)
  then show ?thesis using assms(1)
    by (simp add: parse_line_def str_slice_to_def str_slice_from_def slice_to_def
        slice_from_def Let_def nat_add_distrib)
qed

text \<open>
  A manifest path with a slash in it: the directory is what precedes the last slash.
\<close>

lemma manifest_dir_with_slash:
  assumes "chars file = cd @ [''/''] @ cn" and "''/'' \<notin> set cn"
  shows "manifest_dir file = concat cd"
proof -
  have "rfind (cd @ [''/''] @ cn) [''/''] = int (length cd)"
    using rfind_last_occurrence [of "[''/'']" cn cd] assms(2) by (simp add: str_contains_char)
  then have "str_rfind file ''/'' = int (length cd)"
    using assms(1) by (simp add: str_rfind_def continuation_def)
  then show ?thesis using assms(1)
    by (simp add: manifest_dir_def str_slice_to_def slice_to_def)
qed

text \<open>
  A manifest path without a slash: \<^verbatim>\<open>rfind\<close> gives \<open>-1\<close> and the ``directory'' is the
  path minus its last character.
\<close>

lemma manifest_dir_without_slash:
  assumes "''/'' \<notin> set (chars file)"
  shows "manifest_dir file = concat (butlast (chars file))"
proof -
  have "rfind (chars file) [''/''] = - 1"
    using assms by (simp add: rfind_absent str_contains_char)
  then have "str_rfind file ''/'' = - 1" by (simp add: str_rfind_def continuation_def)
  then show ?thesis by (simp add: manifest_dir_def str_slice_to_def slice_to_minus_one)
qed

lemmas manifest_eval =
  check_files_def retrieve_def replace_char_def read_text_def
  manifest_dir_def parse_line_def text_eval

text \<open>
  Claim C6 at a manifest in the working directory. The line is cut at its last separator
  and the path with single spaces is kept whole, but the path is not resolved against the
  directory of the manifest: it lands under \<^verbatim>\<open>checklist.ch\<close>.
\<close>

theorem manifest_in_working_directory:
  "read_manifests cwd_manifest_disk (check_files [''checklist.chk'']) [] =
     Inr [(''checklist.ch/sub dir/file with space.bin'', ''d41d8cd98f00b204e9800998ecf8427e'')]"
  by (simp add: cwd_manifest_disk_def manifest_eval)

subsection \<open>Hashing a target\<close>

text \<open>
  The read loop absorbs the whole content, chunk by chunk, whatever the length; a faulty
  file then raises.
\<close>

lemma read_file_all:
  "task < length p \<Longrightarrow>
   \<exists>p'. read_file rest faulty target task (h, p) =
          ((h @ rest, p'), if faulty then Some (OSError target) else None) \<and>
        length p' = length p"
proof (induction "length rest" arbitrary: rest h p rule: less_induct)
  case less
  show ?case
  proof (cases "rest = []")
    case True
    then show ?thesis by (simp add: read_file.simps)
  next
    case False
    let ?chunk = "take 4096 rest"
    let ?p1 = "p[task := (p ! task)\<lparr>completed := completed (p ! task) + length ?chunk\<rparr>]"
    have ne: "?chunk \<noteq> []" using False by simp
    have up: "update_task task (\<lambda>t. t\<lparr>completed := completed t + length ?chunk\<rparr>) p = Inr ?p1"
      using less.prems by (simp add: update_task_def)
    have shorter: "length (drop 4096 rest) < length rest" using False by simp
    have len: "task < length ?p1" using less.prems by simp
    obtain p' where
      p': "read_file (drop 4096 rest) faulty target task (h @ ?chunk, ?p1) =
             (((h @ ?chunk) @ drop 4096 rest, p'), if faulty then Some (OSError target) else None)"
          "length p' = length ?p1"
      using less.hyps [OF shorter len] by blast
    have "read_file rest faulty target task (h, p) =
            read_file (drop 4096 rest) faulty target task (h @ ?chunk, ?p1)"
      using ne up by (subst read_file.simps) (simp add: Let_def)
    then show ?thesis using p' by simp
  qed
qed

lemma hash_opened_all:
  "\<exists>p'. hash_opened c faulty target p =
          ((Some c, p'), if faulty then Some (OSError target) else None)"
proof -
  let ?p1 = "p @ [\<lparr>description = checking_description target, total = Some (length c),
                    completed = 0, started = True\<rparr>]"
  have "length p < length ?p1" by simp
  from read_file_all [OF this, of c faulty target "[]"]
  show ?thesis by (auto simp: hash_opened_def add_task_def)
qed

lemma verify_one_readable:
  assumes "disk s target = Some (File c)"
  shows "\<exists>s'. verify_one H (target, md_origin) (h, s) = Inr (Some c, s') \<and>
           printed s' = printed s @
             [if H c = md_origin then ok_line target
              else mismatch_line target md_origin (H c)] \<and>
           disk s' = disk s"
proof -
  obtain p' where "hash_opened c False target (bars s) = ((Some c, p'), None)"
    using hash_opened_all [of c False target "bars s"] by auto
  then show ?thesis using assms by (simp add: verify_one_def try_hash_def)
qed

lemma verify_one_unbound:
  assumes "disk s target = None \<or> disk s target = Some Dir"
  shows "verify_one H (target, md_origin) (None, s) = Inl (UnboundLocalError ''md5_hash'')"
  using assms by (auto simp: verify_one_def try_hash_def)

subsection \<open>Verification on the example disks\<close>

lemma uppercase_md_list:
  "read_manifests uppercase_disk (check_files (retrieve no_scan [] [manifest_info])) [] =
     Inr [(''/data/llama-2-7b/params.json'', ''D41D8CD98F00B204E9800998ECF8427E'')]"
  by (simp add: manifest_eval uppercase_disk_def manifest_info_def)

text \<open>
  Claim C7 as stated fails: the manifest gives the digest of the empty file in capital
  letters, the file is there and empty, and the pass reports a mismatch.
\<close>

theorem uppercase_digest_counterexample:
  "map_sum id printed
     (verify_md5 example_md5 no_scan [] [manifest_info] (empty_state\<lparr>disk := uppercase_disk\<rparr>)) =
   Inr [''/data/llama-2-7b/params.json | D41D8CD98F00B204E9800998ECF8427E != d41d8cd98f00b204e9800998ecf8427e'']"
proof -
  let ?s = "empty_state\<lparr>disk := uppercase_disk, bars := []\<rparr>"
  have d: "disk ?s ''/data/llama-2-7b/params.json'' = Some (File [])"
    by (simp add: uppercase_disk_def)
  obtain s' where
    "verify_one example_md5
       (''/data/llama-2-7b/params.json'', ''D41D8CD98F00B204E9800998ECF8427E'') (None, ?s) =
       Inr (Some [], s')"
    "printed s' = printed ?s @
       [if example_md5 [] = ''D41D8CD98F00B204E9800998ECF8427E''
        then ok_line ''/data/llama-2-7b/params.json''
        else mismatch_line ''/data/llama-2-7b/params.json''
               ''D41D8CD98F00B204E9800998ECF8427E'' (example_md5 [])]"
    using verify_one_readable [OF d] by blast
  then show ?thesis
    by (simp add: verify_md5_def uppercase_md_list empty_state_def example_md5_def
        mismatch_line_def)
qed

text \<open>
  Claim C7, as the code has it. A readable target is read to its end in chunks of 4096
  bytes, so that the hash object has absorbed exactly the content \<open>c\<close>; its lowercase
  hexadecimal digest \<open>H c\<close> is then compared with the expected text by \<^verbatim>\<open>==\<close>, equality of
  strings. The line printed is the OK line when the two strings are equal and the mismatch
  line otherwise; there is no folding of letter case.
\<close>

theorem digest_compared_exactly:
  assumes "disk s target = Some (File c)"
  shows "\<exists>s'. verify_one H (target, md_origin) (h, s) = Inr (Some c, s') \<and>
           printed s' = printed s @
             [if H c = md_origin then ok_line target
              else mismatch_line target md_origin (H c)]"
  using verify_one_readable [OF assms] by blast

theorem digest_compared_exactly_witness:
  "disk (empty_state\<lparr>disk := stale_digest_disk\<rparr>) ''/data/llama-2-7b/params.json'' =
     Some (File ''a'') \<and>
   (\<exists>s'. verify_one example_md5
           (''/data/llama-2-7b/params.json'', ''0cc175b9c0f1b6a831c399e269772661'')
           (None, empty_state\<lparr>disk := stale_digest_disk\<rparr>) = Inr (Some ''a'', s') \<and>
         printed s' = [''/data/llama-2-7b/params.json is OK''])"
proof -
  have d: "disk (empty_state\<lparr>disk := stale_digest_disk\<rparr>) ''/data/llama-2-7b/params.json'' =
     Some (File ''a'')"
    by (simp add: stale_digest_disk_def)
  show ?thesis
    using d digest_compared_exactly [OF d, of example_md5 "''0cc175b9c0f1b6a831c399e269772661''" None]
    by (simp add: example_md5_def ok_line_def empty_state_def)
qed

subsection \<open>Unreadable targets\<close>

lemma missing_md_list:
  "read_manifests missing_target_disk (check_files (retrieve glob [] [manifest_info])) [] =
     Inr [(''/data/llama-2-7b/params.json'', ''d41d8cd98f00b204e9800998ecf8427e'')]"
  by (simp add: manifest_eval missing_target_disk_def manifest_info_def)

text \<open>
  Claim C5 at a manifest whose first target cannot be opened. The \<^verbatim>\<open>except\<close> logs the
  error, but \<^verbatim>\<open>md5_hash\<close> is bound inside the \<^verbatim>\<open>try\<close> only, and the comparison after it
  reads the unbound variable: the pass ends with an exception, for every digest function
  and every folder scan.
\<close>

theorem first_target_unreadable:
  "verify_md5 H glob [] [manifest_info] (empty_state\<lparr>disk := missing_target_disk\<rparr>) =
     Inl (UnboundLocalError ''md5_hash'')"
proof -
  have "disk (empty_state\<lparr>disk := missing_target_disk, bars := []\<rparr>)
          ''/data/llama-2-7b/params.json'' = None"
    by (simp add: missing_target_disk_def)
  then have "verify_one H (''/data/llama-2-7b/params.json'', ''d41d8cd98f00b204e9800998ecf8427e'')
               (None, empty_state\<lparr>disk := missing_target_disk, bars := []\<rparr>) =
             Inl (UnboundLocalError ''md5_hash'')"
    by (simp add: verify_one_unbound)
  then show ?thesis by (simp add: verify_md5_def missing_md_list)
qed

lemma stale_md_list:
  "read_manifests stale_digest_disk (check_files (retrieve glob [] [manifest_info])) [] =
     Inr [(''/data/llama-2-7b/params.json'', ''0cc175b9c0f1b6a831c399e269772661''),
          (''/data/llama-2-7b/consolidated.00.pth'', ''0cc175b9c0f1b6a831c399e269772661'')]"
  by (simp add: manifest_eval stale_digest_disk_def manifest_info_def)

lemma verify_one_stale:
  assumes "disk s target = None"
  shows "verify_one H (target, md_origin) (Some h, s) =
           Inr (Some h,
                s\<lparr>log := (log s @ [LogExc (FileNotFoundError target)]) @
                         [if H h = md_origin then Log INFO (ok_line target)
                          else Log ERROR (mismatch_line target md_origin (H h))],
                  bars := bars s,
                  printed := printed s @
                         [if H h = md_origin then ok_line target
                          else mismatch_line target md_origin (H h)]\<rparr>)"
  using assms by (simp add: verify_one_def try_hash_def)

text \<open>
  When a later target cannot be opened, \<^verbatim>\<open>md5_hash\<close> is still the hash object of the
  target before it. Here the missing file is reported as OK.
\<close>

lemma later_target_unreadable_reported_ok:
  "map_sum id printed
     (verify_md5 example_md5 glob [] [manifest_info] (empty_state\<lparr>disk := stale_digest_disk\<rparr>)) =
   Inr [''/data/llama-2-7b/params.json is OK'', ''/data/llama-2-7b/consolidated.00.pth is OK'']"
proof -
  let ?s = "empty_state\<lparr>disk := stale_digest_disk, bars := []\<rparr>"
  have d: "disk ?s ''/data/llama-2-7b/params.json'' = Some (File ''a'')"
    by (simp add: stale_digest_disk_def)
  obtain s' where s':
    "verify_one example_md5
       (''/data/llama-2-7b/params.json'', ''0cc175b9c0f1b6a831c399e269772661'') (None, ?s) =
       Inr (Some ''a'', s')"
    "printed s' = printed ?s @
       [if example_md5 ''a'' = ''0cc175b9c0f1b6a831c399e269772661''
        then ok_line ''/data/llama-2-7b/params.json''
        else mismatch_line ''/data/llama-2-7b/params.json''
               ''0cc175b9c0f1b6a831c399e269772661'' (example_md5 ''a'')]"
    "disk s' = disk ?s"
    using verify_one_readable [OF d] by blast
  have "disk s' ''/data/llama-2-7b/consolidated.00.pth'' = None"
    using s'(3) by (simp add: stale_digest_disk_def)
  from verify_one_stale [OF this] s' show ?thesis
    by (simp add: verify_md5_def stale_md_list empty_state_def example_md5_def ok_line_def)
qed

subsection \<open>Which inputs are read as manifests\<close>

lemma str_contains_map:
  "str_contains sub s \<Longrightarrow> str_contains (map f sub) (map f s)"
  by (induction s) (auto dest: map_mono_prefix [where f = f])

lemma replace_char_single:
  "replace_char c [r] s = map (\<lambda>x. if x = c then r else x) s"
  by (induction s) (auto simp: replace_char_def)

lemma chk_survives_replace:
  assumes "str_contains ''.chk'' f"
  shows "str_contains ''.chk'' (replace_char (CHR 0x5C) ''/'' f)"
proof -
  let ?g = "\<lambda>x. if x = CHR 0x5C then CHR ''/'' else x"
  have "str_contains (map ?g ''.chk'') (map ?g f)"
    using assms by (rule str_contains_map)
  then show ?thesis by (simp add: replace_char_single)
qed

lemma read_manifests_frame:
  assumes "\<forall>q. str_contains ''.chk'' q \<longrightarrow> d q = d' q"
    and "\<forall>f \<in> set files. str_contains ''.chk'' f"
  shows "read_manifests d files md_list = read_manifests d' files md_list"
  using assms(2)
proof (induction files arbitrary: md_list)
  case Nil
  then show ?case by simp
next
  case (Cons f files)
  let ?file = "replace_char (CHR 0x5C) ''/'' f"
  have "str_contains ''.chk'' ?file" using Cons.prems by (simp add: chk_survives_replace)
  then have "d ?file = d' ?file" using assms(1) by blast
  then have "read_text d ?file = read_text d' ?file" by (simp add: read_text_def)
  then show ?case using Cons by (simp add: Let_def split: sum.splits)
qed

text \<open>
  Claim C9. The inputs of \<^verbatim>\<open>verify_md5\<close> are the paths of the downloaded files or, when
  that list is empty, the paths of the folder scan; \<open>retrieve\<close> is either. An input \<open>p\<close>
  whose text does not contain \<^verbatim>\<open>.chk\<close> contributes nothing: the records, or the exception
  of a manifest that cannot be read, are those of the inputs without \<open>p\<close>. And no path
  without \<^verbatim>\<open>.chk\<close> is opened as a manifest: the outcome is the same on every disk
  that stores the same at the paths containing \<^verbatim>\<open>.chk\<close>.
\<close>

theorem only_chk_paths_are_manifests:
  assumes "retrieve glob chk_folder file_info = xs @ p # ys"
    and "\<not> str_contains ''.chk'' p"
    and "\<forall>q. str_contains ''.chk'' q \<longrightarrow> d q = d' q"
  shows "read_manifests d (check_files (retrieve glob chk_folder file_info)) md_list =
         read_manifests d' (check_files (xs @ ys)) md_list"
proof -
  have "check_files (retrieve glob chk_folder file_info) = check_files (xs @ ys)"
    using assms(1,2) by (simp add: check_files_def)
  moreover have "\<forall>f \<in> set (check_files (xs @ ys)). str_contains ''.chk'' f"
    by (auto simp: check_files_def)
  ultimately show ?thesis using read_manifests_frame [OF assms(3)] by simp
qed

theorem only_chk_paths_are_manifests_witness:
  "retrieve no_scan [] [license_info, manifest_info] =
     [] @ ''/data/LICENSE'' # [''/data/llama-2-7b/checklist.chk''] \<and>
   \<not> str_contains ''.chk'' ''/data/LICENSE'' \<and>
   read_manifests uppercase_disk
     (check_files (retrieve no_scan [] [license_info, manifest_info])) [] =
   read_manifests (uppercase_disk(''/data/LICENSE'' \<mapsto> File ''x''))
     (check_files ([] @ [''/data/llama-2-7b/checklist.chk''])) [] \<and>
   read_manifests uppercase_disk
     (check_files (retrieve no_scan [] [license_info, manifest_info])) [] =
   Inr [(''/data/llama-2-7b/params.json'', ''D41D8CD98F00B204E9800998ECF8427E'')]"
proof -
  have r: "retrieve no_scan [] [license_info, manifest_info] =
     [] @ ''/data/LICENSE'' # [''/data/llama-2-7b/checklist.chk'']"
    by (simp add: retrieve_def license_info_def manifest_info_def)
  have n: "\<not> str_contains ''.chk'' ''/data/LICENSE''" by simp
  have a: "\<forall>q. str_contains ''.chk'' q \<longrightarrow>
        uppercase_disk q = (uppercase_disk(''/data/LICENSE'' \<mapsto> File ''x'')) q"
    using n by auto
  have e: "read_manifests uppercase_disk
     (check_files (retrieve no_scan [] [license_info, manifest_info])) [] =
   Inr [(''/data/llama-2-7b/params.json'', ''D41D8CD98F00B204E9800998ECF8427E'')]"
    by (simp add: manifest_eval uppercase_disk_def license_info_def manifest_info_def)
  note t = only_chk_paths_are_manifests [OF r n a, of "[]"]
  show ?thesis by (intro conjI r n t e)
qed

subsection \<open>One transfer\<close>

lemma update_task_ok:
  "tid < length p \<Longrightarrow> update_task tid f p = Inr (p[tid := f (p ! tid)])"
  by (simp add: update_task_def)

lemma write_chunks_ok:
  assumes "tid < length p" "d path = Some (File c0)"
  shows "\<exists>p'. write_chunks path f_name tid cs (d, p) =
                 Inr (d(path \<mapsto> File (c0 @ concat cs)), p') \<and>
              length p' = length p \<and> (\<forall>i. i \<noteq> tid \<longrightarrow> p' ! i = p ! i)"
  using assms
proof (induction cs arbitrary: d p c0)
  case Nil
  then show ?case by (simp add: fun_upd_idem)
next
  case (Cons data cs)
  let ?p1 = "p[tid := (p ! tid)\<lparr>completed := completed (p ! tid) + length data,
                                 description := downloading_description f_name\<rparr>]"
  let ?d1 = "d(path \<mapsto> File (c0 @ data))"
  have a: "append_file d path data = ?d1" using Cons.prems by (simp add: append_file_def)
  have "tid < length ?p1" "?d1 path = Some (File (c0 @ data))" using Cons.prems by simp_all
  with Cons.IH [of ?p1 ?d1 "c0 @ data"] obtain p' where
    p': "write_chunks path f_name tid cs (?d1, ?p1) =
           Inr (?d1(path \<mapsto> File ((c0 @ data) @ concat cs)), p')"
        "length p' = length ?p1" "\<forall>i. i \<noteq> tid \<longrightarrow> p' ! i = ?p1 ! i"
    by blast
  have step: "write_chunks path f_name tid (data # cs) (d, p) =
          write_chunks path f_name tid cs (?d1, ?p1)"
    using Cons.prems by (simp add: update_task_ok a)
  have e: "?d1(path \<mapsto> File ((c0 @ data) @ concat cs)) =
           d(path \<mapsto> File (c0 @ concat (data # cs)))"
    by simp
  have w: "write_chunks path f_name tid (data # cs) (d, p) =
             Inr (d(path \<mapsto> File (c0 @ concat (data # cs))), p')"
    by (simp only: step p'(1) e)
  have l: "length p' = length p" using p'(2) by simp
  have n: "\<forall>i. i \<noteq> tid \<longrightarrow> p' ! i = p ! i" using p'(3) by simp
  show ?case using w l n by blast
qed

lemma open_wb_ok: "writable d path \<Longrightarrow> open_wb d path = Inr (d(path \<mapsto> File []))"
  by (auto simp: open_wb_def writable_def split: option.splits node.splits)

lemma file_downloader_not_200:
  assumes "net (file_url fi) = Reply r" "status r \<noteq> 200"
    "writable (disk s) (file_path fi)" "progress_task fi < length (bars s)"
  shows "file_downloader net fi s =
           Inr (s\<lparr>disk := (disk s)(file_path fi \<mapsto> File []),
                  log := log s @
                    [Log ERROR (http_error_message (status r) (file_name fi) (reason r)
                       (file_url fi))],
                  bars := (bars s)[progress_task fi :=
                    (bars s ! progress_task fi)
                      \<lparr>description := unable_description (file_name fi) (status r)\<rparr>]\<rparr>)"
  using assms by (simp add: file_downloader_def open_wb_ok update_task_ok Let_def)

lemma file_downloader_200:
  assumes "net (file_url fi) = Reply r" "status r = 200" "complete r"
    "writable (disk s) (file_path fi)" "progress_task fi < length (bars s)"
  shows "\<exists>p'. file_downloader net fi s =
           Inr (s\<lparr>disk := (disk s)(file_path fi \<mapsto> File (concat (chunks r))),
                  log := log s @
                    [Log INFO (completed_message 200 (file_name fi) (content_length r))],
                  bars := p'\<rparr>) \<and>
           length p' = length (bars s) \<and>
           (\<forall>i. i \<noteq> progress_task fi \<longrightarrow> p' ! i = bars s ! i) \<and>
           description (p' ! progress_task fi) =
             finished_description (file_name fi) (content_length r)"
proof -
  let ?tid = "progress_task fi"
  let ?p1 = "(bars s)[?tid := set_total (content_length r) (bars s ! ?tid)]"
  let ?p2 = "?p1[?tid := (?p1 ! ?tid)\<lparr>started := True\<rparr>]"
  let ?d0 = "(disk s)(file_path fi \<mapsto> File [])"
  have l2: "?tid < length ?p2" using assms(5) by simp
  have "?d0 (file_path fi) = Some (File [])" by simp
  with l2 write_chunks_ok [of ?tid ?p2 ?d0 "file_path fi" "[]" "file_name fi" "chunks r"]
  obtain p3 where
    p3: "write_chunks (file_path fi) (file_name fi) ?tid (chunks r) (?d0, ?p2) =
           Inr (?d0(file_path fi \<mapsto> File ([] @ concat (chunks r))), p3)"
        "length p3 = length ?p2" "\<forall>i. i \<noteq> ?tid \<longrightarrow> p3 ! i = ?p2 ! i"
    by blast
  let ?p4 = "p3[?tid := (p3 ! ?tid)\<lparr>description :=
                 finished_description (file_name fi) (content_length r)\<rparr>]"
  have l3: "?tid < length p3" using p3(2) assms(5) by simp
  have "file_downloader net fi s =
           Inr (s\<lparr>disk := (disk s)(file_path fi \<mapsto> File (concat (chunks r))),
                  log := log s @
                    [Log INFO (completed_message 200 (file_name fi) (content_length r))],
                  bars := ?p4\<rparr>)"
    using assms p3(1) l3
    by (simp add: file_downloader_def open_wb_ok update_task_ok Let_def)
  moreover have "length ?p4 = length (bars s)" using p3(2) by simp
  moreover have "\<forall>i. i \<noteq> ?tid \<longrightarrow> ?p4 ! i = bars s ! i" using p3(3) by simp
  moreover have "description (?p4 ! ?tid) =
      finished_description (file_name fi) (content_length r)"
    using l3 by simp
  ultimately show ?thesis by blast
qed

lemma file_downloader_broken_stream:
  assumes "net (file_url fi) = Reply r" "status r = 200" "\<not> complete r"
  shows "\<exists>e. file_downloader net fi s = Inl e"
  using assms by (auto simp: file_downloader_def Let_def split: sum.splits)

lemma file_downloader_no_connection:
  assumes "net (file_url fi) = NoConnection"
  shows "file_downloader net fi s = Inl ClientConnectionError"
  using assms by (simp add: file_downloader_def)

subsection \<open>Status codes\<close>

lemma str_nat_200: "str_nat 200 = ''200''"
  by code_simp

lemma str_nat_206: "str_nat 206 = ''206''"
  by code_simp

lemma str_nat_404: "str_nat 404 = ''404''"
  by code_simp

lemma str_nat_3: "str_nat 3 = ''3''"
  by code_simp

text \<open>
  Claim C4, as the code has it, for a task whose destination can be opened for writing
  (its directory is there). The test is \<^verbatim>\<open>response.status == 200\<close>: with status 200
  (and a body that arrives whole) the chunks are written to the destination, the task ends
  with the Finished description and the completion is logged; with any other status,
  201 to 299 included, nothing of the body is written, the task ends with the Unable to
  download description and the status code, the reason and the URL are logged as an error.
\<close>

theorem only_status_200_succeeds:
  assumes "net (file_url fi) = Reply r"
    and "writable (disk s) (file_path fi)"
    and "progress_task fi < length (bars s)"
  shows "(status r = 200 \<and> complete r \<longrightarrow>
           (\<exists>s'. file_downloader net fi s = Inr s' \<and>
              disk s' (file_path fi) = Some (File (concat (chunks r))) \<and>
              description (bars s' ! progress_task fi) =
                finished_description (file_name fi) (content_length r) \<and>
              log s' = log s @
                [Log INFO (completed_message 200 (file_name fi) (content_length r))])) \<and>
         (status r \<noteq> 200 \<longrightarrow>
           (\<exists>s'. file_downloader net fi s = Inr s' \<and>
              disk s' (file_path fi) = Some (File []) \<and>
              description (bars s' ! progress_task fi) =
                unable_description (file_name fi) (status r) \<and>
              log s' = log s @
                [Log ERROR (http_error_message (status r) (file_name fi) (reason r)
                   (file_url fi))]))"
proof (intro conjI impI)
  assume "status r = 200 \<and> complete r"
  then obtain p' where
    "file_downloader net fi s =
       Inr (s\<lparr>disk := (disk s)(file_path fi \<mapsto> File (concat (chunks r))),
              log := log s @
                [Log INFO (completed_message 200 (file_name fi) (content_length r))],
              bars := p'\<rparr>)"
    "description (p' ! progress_task fi) =
       finished_description (file_name fi) (content_length r)"
    using assms file_downloader_200 [where net = net and fi = fi and r = r and s = s] by blast
  then show "\<exists>s'. file_downloader net fi s = Inr s' \<and>
              disk s' (file_path fi) = Some (File (concat (chunks r))) \<and>
              description (bars s' ! progress_task fi) =
                finished_description (file_name fi) (content_length r) \<and>
              log s' = log s @
                [Log INFO (completed_message 200 (file_name fi) (content_length r))]"
    by simp
next
  assume "status r \<noteq> 200"
  with assms file_downloader_not_200 [where net = net and fi = fi and r = r and s = s]
  show "\<exists>s'. file_downloader net fi s = Inr s' \<and>
              disk s' (file_path fi) = Some (File []) \<and>
              description (bars s' ! progress_task fi) =
                unable_description (file_name fi) (status r) \<and>
              log s' = log s @
                [Log ERROR (http_error_message (status r) (file_name fi) (reason r)
                   (file_url fi))]"
    by simp
qed

lemma license_reply_ok:
  "ok_net (file_url license_info) = Reply (Response 200 ''OK'' (Some 3) [''ab'', ''c''] True)"
  by (simp add: ok_net_def)

lemma license_reply_partial:
  "partial_content_net (file_url license_info) =
     Reply (Response 206 ''Partial Content'' (Some 3) [''abc''] True)"
  by (simp add: partial_content_net_def)

lemma license_reply_not_found:
  "not_found_net (file_url license_info) =
     Reply (Response 404 ''Not Found'' (Some 9) [''not found''] True)"
  by (simp add: not_found_net_def)

lemma queued_state_ready:
  "writable (disk queued_state) (file_path license_info)"
  "progress_task license_info < length (bars queued_state)"
  by (simp_all add: queued_state_def license_info_def writable_def parent_error_def rfind_def)


theorem only_status_200_succeeds_witness:
  "(\<exists>s'. file_downloader ok_net license_info queued_state = Inr s' \<and>
      disk s' ''/data/LICENSE'' = Some (File ''abc'') \<and>
      description (bars s' ! 0) = ''[green][b]Finished LICENSE[/b] | 3'' \<and>
      log s' = [Log INFO ''200 | LICENSE | 3 bytes completed.'']) \<and>
   (\<exists>s'. file_downloader not_found_net license_info queued_state = Inr s' \<and>
      disk s' ''/data/LICENSE'' = Some (File []) \<and>
      description (bars s' ! 0) = ''[red]Unable to download [b]LICENSE[/b] - 404'' \<and>
      log s' = [Log ERROR (''404 | LICENSE'' @ [CHR 0x0A] @ ''Not Found'' @ [CHR 0x0A] @
                  ''https://host/./LICENSE'')])"
  using only_status_200_succeeds
      [where net = ok_net and fi = license_info and s = queued_state,
       OF license_reply_ok queued_state_ready]
    only_status_200_succeeds
      [where net = not_found_net and fi = license_info and s = queued_state,
       OF license_reply_not_found queued_state_ready]
  by (simp add: license_info_def queued_state_def finished_description_def
      unable_description_def completed_message_def http_error_message_def str_opt_nat_def
      str_nat_200 str_nat_404 str_nat_3)

text \<open>
  Claim C4 as stated fails: status 206 lies in 200 to 299, and the transfer is a failure.
\<close>

theorem status_206_counterexample:
  "map_sum id (\<lambda>s'. (disk s' ''/data/LICENSE'', map description (bars s'), log s'))
     (file_downloader partial_content_net license_info queued_state) =
   Inr (Some (File []),
        [''[red]Unable to download [b]LICENSE[/b] - 206''],
        [Log ERROR (''206 | LICENSE'' @ [CHR 0x0A] @ ''Partial Content'' @ [CHR 0x0A] @
                  ''https://host/./LICENSE'')])"
  using file_downloader_not_200
      [where net = partial_content_net and fi = license_info and s = queued_state,
       OF license_reply_partial _ queued_state_ready]
  by (simp add: license_info_def queued_state_def unable_description_def
      http_error_message_def str_nat_206)




subsection \<open>The task list\<close>

text \<open>
  What the two loops of \<^verbatim>\<open>download_files\<close> build when no URL fails to format: one task per
  file of every catalogue group that is among the requested names, in catalogue order, with
  the task ids counting up.
\<close>

lemma queue_files_result:
  assumes "queue_files url base_path model files (fl, p) = Inr (fl', p')"
  shows "\<exists>new. fl' = fl @ new \<and>
           map (\<lambda>f. (Inr (file_url f), file_name f, file_path f)) new =
             map (\<lambda>file. (str_format url (model @ ''/'' @ file), file,
                           destination base_path model file)) files \<and>
           map progress_task new = [length p..<length p + length new] \<and>
           length p' = length p + length new"
  using assms
proof (induction files arbitrary: fl p)
  case Nil
  then show ?case by simp
next
  case (Cons a files)
  from Cons.prems obtain u where u: "str_format url (model @ ''/'' @ a) = Inr u"
    by (auto split: sum.splits)
  let ?fi = "\<lparr>file_url = u, file_name = a,
              file_path = destination base_path model a, progress_task = length p\<rparr>"
  let ?p1 = "p @ [\<lparr>description = queued_description a, total = Some 100,
                    completed = 0, started = False\<rparr>]"
  have "queue_files url base_path model files (fl @ [?fi], ?p1) = Inr (fl', p')"
    using Cons.prems u by (simp add: add_task_def)
  from Cons.IH [OF this] obtain new where new:
    "fl' = (fl @ [?fi]) @ new"
    "map (\<lambda>f. (Inr (file_url f) :: exn + string, file_name f, file_path f)) new =
       map (\<lambda>file. (str_format url (model @ ''/'' @ file), file,
                     destination base_path model file)) files"
    "map progress_task new = [length ?p1..<length ?p1 + length new]"
    "length p' = length ?p1 + length new"
    by blast
  have "map progress_task (?fi # new) = [length p..<length p + length (?fi # new)]"
    using new(3) by (simp add: upt_conv_Cons del: upt_Suc)
  moreover have "fl' = fl @ ?fi # new" using new(1) by simp
  moreover have "map (\<lambda>f. (Inr (file_url f) :: exn + string, file_name f, file_path f))
        (?fi # new) =
      map (\<lambda>file. (str_format url (model @ ''/'' @ file), file,
                    destination base_path model file)) (a # files)"
    using new(2) u by simp
  moreover have "length p' = length p + length (?fi # new)" using new(4) by simp
  ultimately show ?case by blast
qed

lemma queue_models_result:
  assumes "queue_models url base_path models cat (fl, p) = Inr (fl', p')"
  shows "\<exists>new. fl' = fl @ new \<and>
           map (\<lambda>f. (Inr (file_url f), file_name f, file_path f)) new =
             concat (map (\<lambda>(g, files).
                 map (\<lambda>file. (str_format url (g @ ''/'' @ file), file,
                               destination base_path g file)) files)
               (filter (\<lambda>(g, files). g \<in> set models) cat)) \<and>
           map progress_task new = [length p..<length p + length new] \<and>
           length p' = length p + length new"
  using assms
proof (induction cat arbitrary: fl p)
  case Nil
  then show ?case by simp
next
  case (Cons entry cat)
  obtain model files where entry: "entry = (model, files)" by (cases entry)
  show ?case
  proof (cases "model \<in> set models")
    case False
    then show ?thesis using Cons entry by simp
  next
    case True
    from Cons.prems True entry obtain fl1 p1 where
      q1: "queue_files url base_path model files (fl, p) = Inr (fl1, p1)" and
      q2: "queue_models url base_path models cat (fl1, p1) = Inr (fl', p')"
      by (auto split: sum.splits)
    from queue_files_result [OF q1] obtain new1 where new1:
      "fl1 = fl @ new1"
      "map (\<lambda>f. (Inr (file_url f) :: exn + string, file_name f, file_path f)) new1 =
         map (\<lambda>file. (str_format url (model @ ''/'' @ file), file,
                       destination base_path model file)) files"
      "map progress_task new1 = [length p..<length p + length new1]"
      "length p1 = length p + length new1"
      by blast
    from Cons.IH [OF q2] obtain new2 where new2:
      "fl' = fl1 @ new2"
      "map (\<lambda>f. (Inr (file_url f) :: exn + string, file_name f, file_path f)) new2 =
         concat (map (\<lambda>(g, files).
                 map (\<lambda>file. (str_format url (g @ ''/'' @ file), file,
                               destination base_path g file)) files)
               (filter (\<lambda>(g, files). g \<in> set models) cat))"
      "map progress_task new2 = [length p1..<length p1 + length new2]"
      "length p' = length p1 + length new2"
      by blast
    have "[length p..<length p + length new1 + length new2] =
          [length p..<length p + length new1] @
          [length p + length new1..<length p + length new1 + length new2]"
      by (rule upt_add_eq_append) simp
    then have "map progress_task (new1 @ new2) =
        [length p..<length p + length (new1 @ new2)]"
      using new1(3,4) new2(3) by (simp add: add.assoc del: upt_Suc)
    moreover have "fl' = fl @ new1 @ new2" using new1(1) new2(1) by simp
    moreover have "map (\<lambda>f. (Inr (file_url f) :: exn + string, file_name f, file_path f))
          (new1 @ new2) =
        concat (map (\<lambda>(g, files).
                 map (\<lambda>file. (str_format url (g @ ''/'' @ file), file,
                               destination base_path g file)) files)
               (filter (\<lambda>(g, files). g \<in> set models) (entry # cat)))"
      using new1(2) new2(2) True entry by simp
    moreover have "length p' = length p + length (new1 @ new2)"
      using new1(4) new2(4) by simp
    ultimately show ?thesis by blast
  qed
qed


subsection \<open>URL templates\<close>

lemma emit_Inr [simp]: "emit p (Inr s) = Inr (p @ s)"
  by (simp add: emit_def)

lemma format_from_plain:
  "brace_free s \<Longrightarrow> format_from s a m = Inr s"
  by (induction s) (auto simp: brace_free_def)

lemma format_from_prefix:
  "brace_free pre \<Longrightarrow> format_from (pre @ t) a m = emit pre (format_from t a m)"
proof (induction pre)
  case Nil
  show ?case by (cases "format_from t a m") (simp_all add: emit_def)
next
  case (Cons c pre)
  then have "c \<noteq> CHR ''{''" "c \<noteq> CHR ''}''" "brace_free pre"
    by (auto simp: brace_free_def)
  then show ?case using Cons.IH
    by (cases "format_from t a m") (simp_all add: emit_def)
qed

lemma str_format_placeholder:
  assumes "brace_free pre" "brace_free post"
  shows "str_format (pre @ ''{0}'' @ post) a = Inr (pre @ a @ post)"
proof -
  have "format_from (''{0}'' @ post) a Unset = Inr (a @ post)"
    using assms(2) by (simp add: format_from_plain)
  then show ?thesis using assms(1) by (simp add: str_format_def format_from_prefix)
qed

lemma queue_files_succeeds:
  assumes "\<forall>a. \<exists>u. str_format url a = Inr u"
  shows "\<exists>r. queue_files url base_path model files acc = Inr r"
proof (induction files arbitrary: acc)
  case Nil
  then show ?case by simp
next
  case (Cons a files)
  obtain fl p where acc: "acc = (fl, p)" by (cases acc)
  obtain u where "str_format url (model @ ''/'' @ a) = Inr u" using assms by blast
  then show ?case using Cons.IH acc by (simp add: add_task_def)
qed

lemma queue_models_succeeds:
  assumes "\<forall>a. \<exists>u. str_format url a = Inr u"
  shows "\<exists>r. queue_models url base_path models cat acc = Inr r"
proof (induction cat arbitrary: acc)
  case Nil
  then show ?case by simp
next
  case (Cons entry cat)
  obtain model files where entry: "entry = (model, files)" by (cases entry)
  obtain r where "queue_files url base_path model files acc = Inr r"
    using queue_files_succeeds [OF assms] by blast
  then show ?case using Cons.IH entry by simp
qed

lemma unwrap_urls:
  assumes "map (\<lambda>f. (Inr (file_url f) :: exn + string, file_name f, file_path f)) fl =
           map (\<lambda>y. (Inr (u y), v y)) ys"
  shows "map (\<lambda>f. (file_url f, file_name f, file_path f)) fl = map (\<lambda>y. (u y, v y)) ys"
proof -
  have "map (\<lambda>(a, b). (projr a, b))
          (map (\<lambda>f. (Inr (file_url f) :: exn + string, file_name f, file_path f)) fl) =
        map (\<lambda>(a, b). (projr a, b)) (map (\<lambda>y. (Inr (u y) :: exn + string, v y)) ys)"
    using assms by simp
  then show ?thesis by (simp add: comp_def)
qed

lemma root_group_first:
  "FILES = (''.'', [''LICENSE'', ''USE_POLICY.md'', ''tokenizer.model'',
                   ''tokenizer_checklist.chk'']) # tl FILES"
  by (simp add: FILES_def)

text \<open>
  Claim C10. With a template that has the one placeholder \<^verbatim>\<open>{0}\<close> between literal text,
  and the root group among the requested names, the tasks of the root group's files come
  first in the list; each has the URL with \<^verbatim>\<open>./\<close> and the file name in place of the
  placeholder, and the destination directly under the base path.
\<close>

theorem root_group_urls_and_paths:
  assumes "brace_free pre" "brace_free post"
    and "''.'' \<in> set models"
    and "map_of FILES ''.'' = Some files"
  shows "\<exists>fl p. build_file_list models (pre @ ''{0}'' @ post) base_path = Inr (fl, p) \<and>
           map (\<lambda>f. (file_url f, file_name f, file_path f)) (take (length files) fl) =
             map (\<lambda>file. (pre @ ''./'' @ file @ post, file, base_path @ ''/'' @ file)) files"
proof -
  let ?url = "pre @ ''{0}'' @ post"
  have fmt: "\<And>a. str_format ?url a = Inr (pre @ a @ post)"
    using assms(1,2) by (rule str_format_placeholder)
  then have good: "\<forall>a. \<exists>u. str_format ?url a = Inr u" by blast
  have fmt': "\<And>a. str_format (pre @ CHR ''{'' # CHR ''0'' # CHR ''}'' # post) a =
      Inr (pre @ a @ post)"
    using fmt by simp
  have cat: "FILES = (''.'', files) # tl FILES"
    using assms(4) by (subst (asm) root_group_first, subst root_group_first) simp
  obtain fl1 p1 where q1:
    "queue_files ?url base_path ''.'' files ([], []) = Inr (fl1, p1)"
    using queue_files_succeeds [OF good] by (metis surj_pair)
  obtain fl p where q2:
    "queue_models ?url base_path models (tl FILES) (fl1, p1) = Inr (fl, p)"
    using queue_models_succeeds [OF good] by (metis surj_pair)
  have "queue_models ?url base_path models ((''.'', files) # tl FILES) ([], []) = Inr (fl, p)"
    using assms(3) q1 q2 by simp
  then have b: "build_file_list models ?url base_path = Inr (fl, p)"
    unfolding build_file_list_def using cat by simp
  from queue_files_result [OF q1] obtain new1 where new1:
    "fl1 = [] @ new1"
    "map (\<lambda>f. (Inr (file_url f) :: exn + string, file_name f, file_path f)) new1 =
       map (\<lambda>file. (str_format ?url (''.'' @ ''/'' @ file), file,
                     destination base_path ''.'' file)) files"
    by blast
  from queue_models_result [OF q2] obtain new2 where new2: "fl = fl1 @ new2" by blast
  have "map (\<lambda>f. (Inr (file_url f) :: exn + string, file_name f, file_path f)) fl1 =
       map (\<lambda>file. (Inr (pre @ ''./'' @ file @ post), file, base_path @ ''/'' @ file)) files"
    using new1 by (simp add: fmt' destination_def)
  then have v: "map (\<lambda>f. (file_url f, file_name f, file_path f)) fl1 =
       map (\<lambda>file. (pre @ ''./'' @ file @ post, file, base_path @ ''/'' @ file)) files"
    by (rule unwrap_urls)
  have "length (map (\<lambda>f. (file_url f, file_name f, file_path f)) fl1) =
        length (map (\<lambda>file. (pre @ ''./'' @ file @ post, file, base_path @ ''/'' @ file))
          files)"
    by (simp only: v)
  then have "length fl1 = length files" by (simp only: length_map)
  then have t: "take (length files) fl = fl1" using new2 by simp
  show ?thesis
    by (intro exI[of _ fl] exI[of _ p] conjI b) (simp only: t v)
qed

theorem root_group_urls_and_paths_witness:
  "brace_free ''https://host/'' \<and> brace_free [] \<and> ''.'' \<in> set [''.''] \<and>
   map_of FILES ''.'' =
     Some [''LICENSE'', ''USE_POLICY.md'', ''tokenizer.model'', ''tokenizer_checklist.chk''] \<and>
   (\<exists>fl p. build_file_list [''.''] ''https://host/{0}'' ''/data'' = Inr (fl, p) \<and>
      map (\<lambda>f. (file_url f, file_name f, file_path f)) (take 4 fl) =
        [(''https://host/./LICENSE'', ''LICENSE'', ''/data/LICENSE''),
         (''https://host/./USE_POLICY.md'', ''USE_POLICY.md'', ''/data/USE_POLICY.md''),
         (''https://host/./tokenizer.model'', ''tokenizer.model'', ''/data/tokenizer.model''),
         (''https://host/./tokenizer_checklist.chk'', ''tokenizer_checklist.chk'',
          ''/data/tokenizer_checklist.chk'')])"
proof -
  have h1: "brace_free ''https://host/''" by (simp add: brace_free_def)
  have h2: "brace_free []" by (simp add: brace_free_def)
  have h3: "''.'' \<in> set [''.'']" by simp
  have h4: "map_of FILES ''.'' =
     Some [''LICENSE'', ''USE_POLICY.md'', ''tokenizer.model'', ''tokenizer_checklist.chk'']"
    by (subst root_group_first) simp
  show ?thesis
    using h1 h2 h3 h4 root_group_urls_and_paths [OF h1 h2 h3 h4, of "''/data''"]
    by (simp add: eval_nat_numeral)
qed

subsection \<open>A batch of transfers\<close>













text \<open>
  A group whose directory has not been made: the first transfer cannot open its
  destination, and \<^verbatim>\<open>download_files\<close> raises.
\<close>

lemma missing_group_directory:
  "download_files ok_net [''llama-2-7b''] ''https://host/{0}'' ''/data'' data_state =
     Inl (FileNotFoundError ''/data/llama-2-7b/consolidated.00.pth'')"
  by (simp add: download_files_def build_file_list_def FILES_def str_format_def add_task_def
      destination_def queued_description_def file_downloader_def ok_net_def open_wb_def
      parent_error_def rfind_def data_state_def Let_def)

subsection \<open>Resolving the requested groups\<close>























end
